theory Spec2Isabelle
  imports Main
begin

section \<open>Python strings and lists\<close>

text \<open>
  The module is Python 2 code over byte strings, so a string is a \<open>char list\<close>.
  The definitions of this section are the string and list methods the module
  calls: \<open>str.strip()\<close>, \<open>str.split(sep)\<close> with a one-character separator,
  \<open>str.startswith\<close>, \<open>str.endswith\<close>, \<open>sep.join\<close> and list indexing with its
  \<open>IndexError\<close>.
\<close>

definition isspace :: "char \<Rightarrow> bool" where
  "isspace c = (c = CHR 0x09 \<or> c = CHR 0x0A \<or> c = CHR 0x0B \<or> c = CHR 0x0C \<or> c = CHR 0x0D \<or> c = CHR '' '')"

definition str_strip :: "string \<Rightarrow> string" where
  "str_strip s = rev (dropWhile isspace (rev (dropWhile isspace s)))"

fun str_split :: "char \<Rightarrow> string \<Rightarrow> string list" where
  "str_split sep [] = [[]]"
| "str_split sep (c # cs) =
     (if c = sep then [] # str_split sep cs
      else (case str_split sep cs of
              [] \<Rightarrow> [[c]]
            | t # ts \<Rightarrow> (c # t) # ts))"

fun str_join :: "string \<Rightarrow> string list \<Rightarrow> string" where
  "str_join sep [] = []"
| "str_join sep [t] = t"
| "str_join sep (t # u # ts) = t @ sep @ str_join sep (u # ts)"

definition str_startswith :: "string \<Rightarrow> string \<Rightarrow> bool" where
  "str_startswith s p = (take (length p) s = p)"

definition str_endswith :: "string \<Rightarrow> string \<Rightarrow> bool" where
  "str_endswith s p = (length p \<le> length s \<and> drop (length s - length p) s = p)"

datatype error =
    SystemExit nat "string list"
  | CommandError string int string
  | IndexError
  | OSError

text \<open>
  \<open>SystemExit code lines\<close> is \<open>sys.exit(code)\<close> after \<open>error_out\<close> has printed
  \<open>lines\<close>; \<open>CommandError command status output\<close> is the
  \<open>Exception("Error running command")\<close> of \<open>run_command\<close>, with the diagnostic block
  it wrote to the error stream.
\<close>

definition list_index :: "'a list \<Rightarrow> int \<Rightarrow> error + 'a" where
  "list_index xs i =
     (if 0 \<le> i \<and> i < int (length xs) then Inr (xs ! nat i)
      else if i < 0 \<and> - i \<le> int (length xs) then Inr (xs ! nat (int (length xs) + i))
      else Inl IndexError)"

section \<open>The process environment\<close>

text \<open>
  Everything the module reads from outside is a field of \<open>world\<close>:
  \<open>commands.getstatusoutput\<close> (the wait status and the output of a shell command,
  its final newline removed), \<open>os.environ\<close>, \<open>os.getcwd()\<close>, \<open>os.listdir\<close>
  (\<open>None\<close> where it raises \<open>OSError\<close>) and \<open>os.path.exists\<close>.
  What \<open>debug\<close> and \<open>print\<close> write to standard output is not part of a result.
\<close>

record world =
  getstatusoutput :: "string \<Rightarrow> int \<times> string"
  environ :: "string \<Rightarrow> string option"
  getcwd :: string
  listdir :: "string \<Rightarrow> string list option"
  path_exists :: "string \<Rightarrow> bool"

subsection \<open>\<open>os.path\<close> (posixpath)\<close>

definition path_join :: "string \<Rightarrow> string \<Rightarrow> string" where
  "path_join a b =
     (if str_startswith b ''/'' then b
      else if a = [] \<or> str_endswith a ''/'' then a @ b
      else a @ ''/'' @ b)"

definition isabs :: "string \<Rightarrow> bool" where
  "isabs s = str_startswith s ''/''"

fun normpath_comps :: "nat \<Rightarrow> string list \<Rightarrow> string list \<Rightarrow> string list" where
  "normpath_comps initial_slashes new_comps [] = new_comps"
| "normpath_comps initial_slashes new_comps (part # comps) =
     (if part = [] \<or> part = ''.'' then normpath_comps initial_slashes new_comps comps
      else if part \<noteq> ''..'' \<or> (initial_slashes = 0 \<and> new_comps = [])
              \<or> (new_comps \<noteq> [] \<and> last new_comps = ''..'')
        then normpath_comps initial_slashes (new_comps @ [part]) comps
      else if new_comps \<noteq> [] then normpath_comps initial_slashes (butlast new_comps) comps
      else normpath_comps initial_slashes new_comps comps)"

definition normpath :: "string \<Rightarrow> string" where
  "normpath p =
     (if p = [] then ''.''
      else
        let initial_slashes =
              (if str_startswith p ''/'' then
                 (if str_startswith p ''//'' \<and> \<not> str_startswith p ''///'' then 2 else 1)
               else 0);
            comps = normpath_comps initial_slashes [] (str_split CHR ''/'' p);
            q = replicate initial_slashes CHR ''/'' @ str_join ''/'' comps
        in if q = [] then ''.'' else q)"

definition abspath :: "world \<Rightarrow> string \<Rightarrow> string" where
  "abspath w p = normpath (if isabs p then p else path_join (getcwd w) p)"

section \<open>The pattern of \<open>get_project_name\<close>\<close>

text \<open>
  \<open>re.compile('(.*?)-(\d.*)')\<close> and \<open>p.match(tag)\<close>: a backtracking matcher for
  a sequence of one-character items, anchored at the start of the subject and free
  at its end, as \<open>match\<close> is. A lazy star first tries what follows it and takes
  one more character only when that fails; a greedy star first takes one more
  character. Without the DOTALL flag \<open>.\<close> matches every character but a newline, and
  on a byte string \<open>\d\<close> is \<open>[0-9]\<close>. The result lists the groups in order.
\<close>

datatype cclass = Dot | Digit | Lit char

datatype ritem = One cclass | Lazy_star cclass | Greedy_star cclass | Group_open | Group_close

definition isdigit :: "char \<Rightarrow> bool" where
  "isdigit c = (c \<in> set ''0123456789'')"

fun accepts :: "cclass \<Rightarrow> char \<Rightarrow> bool" where
  "accepts Dot c = (c \<noteq> CHR 0x0A)"
| "accepts Digit c = isdigit c"
| "accepts (Lit a) c = (c = a)"

fun push :: "char \<Rightarrow> string option \<Rightarrow> string option" where
  "push c None = None"
| "push c (Some g) = Some (g @ [c])"

function re_run :: "ritem list \<Rightarrow> string list \<Rightarrow> string option \<Rightarrow> string \<Rightarrow> string list option" where
  "re_run [] groups cur inp = Some groups"
| "re_run (Group_open # r) groups cur inp = re_run r groups (Some []) inp"
| "re_run (Group_close # r) groups cur inp =
     re_run r (groups @ [case cur of None \<Rightarrow> [] | Some g \<Rightarrow> g]) None inp"
| "re_run (One c # r) groups cur [] = None"
| "re_run (One c # r) groups cur (x # xs) =
     (if accepts c x then re_run r groups (push x cur) xs else None)"
| "re_run (Lazy_star c # r) groups cur [] = re_run r groups cur []"
| "re_run (Lazy_star c # r) groups cur (x # xs) =
     (case re_run r groups cur (x # xs) of
        Some m \<Rightarrow> Some m
      | None \<Rightarrow> if accepts c x then re_run (Lazy_star c # r) groups (push x cur) xs else None)"
| "re_run (Greedy_star c # r) groups cur [] = re_run r groups cur []"
| "re_run (Greedy_star c # r) groups cur (x # xs) =
     (if accepts c x then
        (case re_run (Greedy_star c # r) groups (push x cur) xs of
           Some m \<Rightarrow> Some m
         | None \<Rightarrow> re_run r groups cur (x # xs))
      else re_run r groups cur (x # xs))"
  by pat_completeness auto
termination
  by (relation "measures [\<lambda>(r, groups, cur, inp). length inp, \<lambda>(r, groups, cur, inp). length r]") auto

definition project_tag_re :: "ritem list" where
  "project_tag_re =
     [Group_open, Lazy_star Dot, Group_close, One (Lit CHR ''-''),
      Group_open, One Digit, Greedy_star Dot, Group_close]"

definition re_match :: "ritem list \<Rightarrow> string \<Rightarrow> string list option" where
  "re_match p s = re_run p [] None s"

section \<open>The module\<close>

datatype msgs = Msg string | Msg_list "string list"

definition error_out :: "msgs \<Rightarrow> error + 'a" where
  "error_out error_msgs =
     Inl (SystemExit 1
       (case error_msgs of
          Msg_list ls \<Rightarrow> map (\<lambda>line. ''ERROR: '' @ line) ls
        | Msg s \<Rightarrow> [''ERROR: '' @ s]))"

definition find_spec_file :: "world \<Rightarrow> string option \<Rightarrow> error + string" where
  "find_spec_file w in_dir =
     (let d = (case in_dir of None \<Rightarrow> getcwd w | Some d \<Rightarrow> d) in
      case listdir w d of
        None \<Rightarrow> Inl OSError
      | Some names \<Rightarrow>
          (case find (\<lambda>f. str_endswith f ''.spec'') names of
             Some f \<Rightarrow> Inr f
           | None \<Rightarrow> error_out (Msg_list [''Unable to locate a spec file in '' @ d])))"

definition find_git_root :: "world \<Rightarrow> error + string" where
  "find_git_root w =
     (case getstatusoutput w ''git rev-parse --show-cdup'' of
        (status, cdup) \<Rightarrow>
          if status > 0 then
            error_out (Msg_list [getcwd w @ '' does not appear to be within a git checkout.''])
          else Inr (abspath w (if cdup = [] then ''./'' else cdup)))"

definition run_command :: "world \<Rightarrow> string \<Rightarrow> error + string" where
  "run_command w command =
     (case getstatusoutput w command of
        (status, output) \<Rightarrow>
          if status > 0 then Inl (CommandError command status output) else Inr output)"

definition get_git_repo_url :: "world \<Rightarrow> error + string" where
  "get_git_repo_url w = run_command w ''git config remote.origin.url''"

definition awk_first :: string where
  "awk_first = ''awk '{ print $1 ; exit }'' @ [CHR 0x27]"

definition check_tag_exists :: "world \<Rightarrow> string \<Rightarrow> bool \<Rightarrow> error + unit" where
  "check_tag_exists w tag offline =
     (case getstatusoutput w (''git tag | grep '' @ tag) of
        (status, output) \<Rightarrow>
          if status > 0 then error_out (Msg (''Tag does not exist locally: ['' @ tag @ '']''))
          else
            (case run_command w (''git ls-remote ./. --tag '' @ tag @ '' | '' @ awk_first) of
               Inl e \<Rightarrow> Inl e
             | Inr tag_sha1 \<Rightarrow>
                 if offline then Inr ()
                 else
                   (case get_git_repo_url w of
                      Inl e \<Rightarrow> Inl e
                    | Inr repo_url \<Rightarrow>
                        (case run_command w
                                (''git ls-remote '' @ repo_url @ '' --tag '' @ tag @ '' | '' @ awk_first) of
                           Inl e \<Rightarrow> Inl e
                         | Inr upstream_tag_sha1 \<Rightarrow>
                             if upstream_tag_sha1 = [] then
                               error_out (Msg_list
                                 [''Tag does not exist in remote git repo: '' @ tag,
                                  ''You must tag, then git push and git push --tags''])
                             else if upstream_tag_sha1 \<noteq> tag_sha1 then
                               error_out (Msg (''Tag '' @ tag @ '' references '' @ tag_sha1
                                 @ '' locally but '' @ upstream_tag_sha1 @ '' upstream.''))
                             else Inr ()))))"

definition get_project_name :: "world \<Rightarrow> string option \<Rightarrow> error + string" where
  "get_project_name w tag =
     (case tag of
        Some t \<Rightarrow>
          (case re_match project_tag_re t of
             None \<Rightarrow> error_out (Msg (''Unable to determine project name in tag: '' @ t))
           | Some groups \<Rightarrow> list_index groups 0)
      | None \<Rightarrow>
          (case find_spec_file w None of
             Inl e \<Rightarrow> Inl e
           | Inr f \<Rightarrow>
               (let spec_file_path = path_join (getcwd w) f in
                if \<not> path_exists w spec_file_path then
                  error_out (Msg (''Unable to get project name from spec file: '' @ spec_file_path))
                else
                  run_command w
                    (''rpm -q --qf '%{name}\<newline>' --specfile '' @ spec_file_path
                      @ '' 2> /dev/null | head -1''))))"

definition get_relative_project_dir :: "world \<Rightarrow> string \<Rightarrow> string \<Rightarrow> error + string" where
  "get_relative_project_dir w project_name commit =
     (case run_command w (''git show '' @ commit @ '':rel-eng/packages/'' @ project_name) of
        Inl e \<Rightarrow> Inl e
      | Inr output \<Rightarrow>
          (let pkg_metadata = str_strip output;
               tokens = str_split CHR '' '' pkg_metadata
           in list_index tokens 1))"

datatype pyval = PyInt int | PyStr string

definition get_commit_count :: "world \<Rightarrow> string \<Rightarrow> string \<Rightarrow> error + pyval" where
  "get_commit_count w tag commit_id =
     (case run_command w (''git describe '' @ commit_id) of
        Inl e \<Rightarrow> Inl e
      | Inr output \<Rightarrow>
          if tag \<noteq> output then
            (case list_index (str_split CHR ''-'' output) (- 2) of
               Inl e \<Rightarrow> Inl e
             | Inr cnt \<Rightarrow> Inr (PyStr cnt))
          else Inr (PyInt 0))"

definition get_latest_tagged_version :: "world \<Rightarrow> string \<Rightarrow> error + string option" where
  "get_latest_tagged_version w package_name =
     (case find_git_root w of
        Inl e \<Rightarrow> Inl e
      | Inr git_root \<Rightarrow>
          (let rel_eng_dir = path_join git_root ''rel-eng'';
               file_path = rel_eng_dir @ ''/packages/'' @ package_name
           in if \<not> path_exists w file_path then Inr None
              else
                (case run_command w (awk_first @ '' '' @ file_path) of
                   Inl e \<Rightarrow> Inl e
                 | Inr output \<Rightarrow>
                     if str_strip output = [] then
                       error_out (Msg (''Error looking up latest tagged version in: '' @ file_path))
                     else Inr (Some output))))"

definition normalize_class_name :: "string \<Rightarrow> string" where
  "normalize_class_name name =
     (let look_for = ''spacewalk.releng.'' in
      if str_startswith name look_for then ''tito.'' @ drop (length look_for) name else name)"

definition get_script_path :: "world \<Rightarrow> string \<Rightarrow> string" where
  "get_script_path w scriptname =
     (case environ w ''TITO_SRC_BIN_DIR'' of
        None \<Rightarrow> scriptname
      | Some bin_dir \<Rightarrow> path_join bin_dir scriptname)"

section \<open>The specification's words\<close>

text \<open>
  Definitions that follow the wording of the specification rather than the code,
  to compare the code with. \<open>hyphen_digit_prefix tag\<close> is the substring before the
  first hyphen that is immediately followed by a digit, if there is one;
  \<open>name_version_shape tag\<close> says that \<open>tag\<close> is a non-empty name, a hyphen, then a
  part that starts with a digit.
\<close>

fun hyphen_digit_prefix :: "string \<Rightarrow> string option" where
  "hyphen_digit_prefix [] = None"
| "hyphen_digit_prefix (c # cs) =
     (if c = CHR ''-'' \<and> (case cs of [] \<Rightarrow> False | d # _ \<Rightarrow> isdigit d) then Some []
      else map_option ((#) c) (hyphen_digit_prefix cs))"

definition name_version_shape :: "string \<Rightarrow> bool" where
  "name_version_shape tag = (case tag of [] \<Rightarrow> False | c # cs \<Rightarrow> hyphen_digit_prefix cs \<noteq> None)"

text \<open>
  \<open>ws_tokens s\<close> are the whitespace-separated tokens of \<open>s\<close>: the maximal runs of
  characters that are not whitespace, in order (what Python's \<open>s.split()\<close> gives).
\<close>

function ws_tokens :: "string \<Rightarrow> string list" where
  "ws_tokens [] = []"
| "ws_tokens (c # cs) =
     (if isspace c then ws_tokens cs
      else (c # takeWhile (\<lambda>x. \<not> isspace x) cs) # ws_tokens (dropWhile (\<lambda>x. \<not> isspace x) cs))"
  by pat_completeness auto
termination
  by (relation "measure length") (auto simp: le_imp_less_Suc length_dropWhile_le)

text \<open>
  \<open>canonical_path p\<close>: \<open>p\<close> is an absolute path in normal form, the root or a
  slash followed by names separated by single slashes, none of them \<open>.\<close> or
  \<open>..\<close>. This is the form in which \<open>os.getcwd()\<close> gives the working directory.
\<close>

definition canonical_path :: "string \<Rightarrow> bool" where
  "canonical_path p =
     (case p of
        [] \<Rightarrow> False
      | c # rest \<Rightarrow>
          c = CHR ''/'' \<and>
          (rest = [] \<or> list_all (\<lambda>part. part \<noteq> [] \<and> part \<noteq> ''.'' \<and> part \<noteq> ''..'')
                             (str_split CHR ''/'' rest)))"

section \<open>Example environments\<close>

text \<open>
  Concrete environments on which the theorems below are evaluated. In
  \<open>plain_world\<close> every command succeeds with no output, no variable is set and no
  directory can be listed; the others override single fields.
\<close>

definition plain_world :: world where
  "plain_world =
     \<lparr>getstatusoutput = (\<lambda>command. (0, [])), environ = (\<lambda>name. None),
      getcwd = ''/home/dev/tito'', listdir = (\<lambda>d. None), path_exists = (\<lambda>p. False)\<rparr>"

definition spec_dir_world :: world where
  "spec_dir_world =
     plain_world\<lparr>listdir := [''/home/dev/tito'' \<mapsto> [''README'', ''tito.spec'', ''setup.py''],
                               ''/tmp/empty'' \<mapsto> [''notes.txt'']]\<rparr>"

definition src_bin_world :: world where
  "src_bin_world = plain_world\<lparr>environ := [''TITO_SRC_BIN_DIR'' \<mapsto> ''/src/tito/bin'']\<rparr>"

definition describe_world :: world where
  "describe_world =
     \<lparr>getstatusoutput =
        (\<lambda>command.
           if command = ''git describe 1a2b3c4'' then (0, ''tito-0.1.2-3-g1a2b3c4'')
           else if command = ''git describe 9f8e7d6'' then (0, ''tito-0.1.2'')
           else if command = ''git describe 5e6f7a8'' then (0, ''v2'')
           else (32768, ''fatal: Not a valid object name'')),
      environ = (\<lambda>name. None), getcwd = ''/home/dev/tito'', listdir = (\<lambda>d. None), path_exists = (\<lambda>p. False)\<rparr>"

definition metadata_world :: world where
  "metadata_world =
     \<lparr>getstatusoutput =
        (\<lambda>command.
           if command = ''git show 1a2b3c4:rel-eng/packages/tito'' then (0, ''0.1.2-1 ./'')
           else if command = ''git show 1a2b3c4:rel-eng/packages/spaced'' then (0, ''0.4.0-1  spaced/'')
           else if command = ''git show 1a2b3c4:rel-eng/packages/tabbed'' then (0, ''0.4.0-1'' @ CHR 0x09 # ''tabbed/'')
           else (32768, ''fatal: invalid object name'')),
      environ = (\<lambda>name. None), getcwd = ''/home/dev/tito'', listdir = (\<lambda>d. None), path_exists = (\<lambda>p. False)\<rparr>"

definition top_level_world :: world where
  "top_level_world =
     \<lparr>getstatusoutput =
        (\<lambda>command. if command = ''git rev-parse --show-cdup'' then (0, []) else (32512, ''sh: command not found'')),
      environ = (\<lambda>name. None), getcwd = ''/home/dev/tito'', listdir = (\<lambda>d. None), path_exists = (\<lambda>p. False)\<rparr>"

definition packages_world :: world where
  "packages_world =
     \<lparr>getstatusoutput =
        (\<lambda>command.
           if command = ''git rev-parse --show-cdup'' then (0, [])
           else if command = awk_first @ '' /home/dev/tito/rel-eng/packages/tito'' then (0, [])
           else (32512, ''sh: command not found'')),
      environ = (\<lambda>name. None), getcwd = ''/home/dev/tito'', listdir = (\<lambda>d. None),
      path_exists = (\<lambda>p. p = ''/home/dev/tito/rel-eng/packages/tito'')\<rparr>"

text \<open>
  The local tag list. \<open>git_tag_grep tags pattern\<close> is what
  \<open>getstatusoutput("git tag | grep <pattern>")\<close> gives in a repository where
  \<open>git tag\<close> lists \<open>tags\<close>, for a \<open>plain_pattern\<close>: a non-empty pattern of
  letters and digits only, which the shell passes on as one word and \<open>grep\<close> reads
  literally. The result is then the tags in which the pattern occurs, one per line,
  with wait status 0, or no output with exit status 1 (wait status 256) when it
  occurs in none. Any other pattern is outside the model (\<open>None\<close>): the shell and
  the regular expressions of \<open>grep\<close> give it another meaning. \<open>tags_world tags\<close>
  is an environment that answers the tag listing by \<open>git_tag_grep\<close> where that is
  defined and lets every other command succeed with no output.
\<close>

fun occurs_in :: "string \<Rightarrow> string \<Rightarrow> bool" where
  "occurs_in p [] = (p = [])"
| "occurs_in p (c # cs) = (str_startswith (c # cs) p \<or> occurs_in p cs)"

definition isalnum :: "char \<Rightarrow> bool" where
  "isalnum c =
     (c \<in> set ''abcdefghijklmnopqrstuvwxyzABCDEFGHIJKLMNOPQRSTUVWXYZ0123456789'')"

definition plain_pattern :: "string \<Rightarrow> bool" where
  "plain_pattern p = (p \<noteq> [] \<and> list_all isalnum p)"

definition git_tag_grep :: "string list \<Rightarrow> string \<Rightarrow> (int \<times> string) option" where
  "git_tag_grep tags pattern =
     (if plain_pattern pattern then
        (let selected = filter (occurs_in pattern) tags
         in if selected = [] then Some (256, []) else Some (0, str_join ''\<newline>'' selected))
      else None)"

definition tags_world :: "string list \<Rightarrow> world" where
  "tags_world tags =
     \<lparr>getstatusoutput =
        (\<lambda>command.
           if str_startswith command ''git tag | grep ''
           then (case git_tag_grep tags (drop (length ''git tag | grep '') command) of
                   Some answer \<Rightarrow> answer
                 | None \<Rightarrow> (0, []))
           else (0, [])),
      environ = (\<lambda>name. None), getcwd = ''/home/dev/tito'', listdir = (\<lambda>d. None),
      path_exists = (\<lambda>p. False)\<rparr>"

section \<open>Splitting and joining\<close>

lemma str_split_not_Nil [simp]: "str_split sep s \<noteq> []"
  by (induction s) (auto split: list.splits)

lemma str_split_append:
  "str_split sep (a @ sep # b) = str_split sep a @ str_split sep b"
proof (induction a)
  case Nil
  show ?case by simp
next
  case (Cons c cs)
  then show ?case
    by (cases "str_split sep cs") (auto split: list.splits)
qed

lemma str_split_no_sep: "sep \<notin> set t \<Longrightarrow> str_split sep t = [t]"
  by (induction t) auto

lemma str_split_parts: "t \<in> set (str_split sep s) \<Longrightarrow> sep \<notin> set t"
proof (induction s arbitrary: t)
  case Nil
  then show ?case by simp
next
  case (Cons c cs)
  then show ?case
    by (cases "str_split sep cs") (auto split: if_splits)
qed

lemma str_join_Cons_Cons: "str_join sep ((c # t) # ts) = c # str_join sep (t # ts)"
  by (cases ts) simp_all

lemma str_join_split: "str_join [sep] (str_split sep s) = s"
proof (induction s)
  case Nil
  show ?case by simp
next
  case (Cons c cs)
  show ?case
  proof (cases "c = sep")
    case True
    with Cons show ?thesis
      by (cases "str_split sep cs") auto
  next
    case False
    with Cons show ?thesis
      by (cases "str_split sep cs") (simp_all add: str_join_Cons_Cons)
  qed
qed

lemma str_split_join:
  "ts \<noteq> [] \<Longrightarrow> \<forall>t\<in>set ts. sep \<notin> set t \<Longrightarrow> str_split sep (str_join [sep] ts) = ts"
proof (induction "[sep]" ts rule: str_join.induct)
  case 1
  then show ?case by simp
next
  case (2 t)
  then show ?case by (simp add: str_split_no_sep)
next
  case (3 t u ts)
  then show ?case
    by (simp add: str_split_append str_split_no_sep)
qed

lemma str_split_length: "length (str_split sep s) = Suc (count_list s sep)"
  by (induction s) (auto split: list.splits)

section \<open>\<open>run_command\<close>\<close>

lemma run_command_ok:
  "getstatusoutput w command = (status, output) \<Longrightarrow> status \<le> 0 \<Longrightarrow>
   run_command w command = Inr output"
  by (simp add: run_command_def)

section \<open>\<open>find_spec_file\<close>\<close>

lemma find_unique:
  assumes "f \<in> set xs" and "P f" and "\<forall>g\<in>set xs. P g \<longrightarrow> g = f"
  shows "find P xs = Some f"
proof -
  from assms(1,2) have "find P xs \<noteq> None"
    by (auto simp: find_None_iff)
  then obtain g where g: "find P xs = Some g"
    by blast
  then have "g \<in> set xs \<and> P g"
    by (auto simp: find_Some_iff)
  with assms(3) have "g = f"
    by blast
  with g show ?thesis
    by simp
qed

text \<open>
  Claim C6. Let \<open>names\<close> be the listing of the directory searched (\<open>in_dir\<close>, or
  the current working directory when none is given). If \<open>f\<close> is the one entry of
  the listing that ends in \<open>.spec\<close>, \<open>find_spec_file\<close> returns \<open>f\<close> itself, the
  entry as listed with nothing put before it; if no entry ends in \<open>.spec\<close>, it
  prints the error line naming the directory and exits with status 1.
\<close>

theorem find_spec_file_single:
  assumes "listdir w (case in_dir of None \<Rightarrow> getcwd w | Some d \<Rightarrow> d) = Some names"
  shows "(f \<in> set names \<and> str_endswith f ''.spec''
            \<and> (\<forall>g\<in>set names. str_endswith g ''.spec'' \<longrightarrow> g = f)
          \<longrightarrow> find_spec_file w in_dir = Inr f)
       \<and> ((\<forall>g\<in>set names. \<not> str_endswith g ''.spec'')
          \<longrightarrow> find_spec_file w in_dir =
                Inl (SystemExit 1 [''ERROR: Unable to locate a spec file in ''
                      @ (case in_dir of None \<Rightarrow> getcwd w | Some d \<Rightarrow> d)]))"
proof (intro conjI impI)
  assume "f \<in> set names \<and> str_endswith f ''.spec''
            \<and> (\<forall>g\<in>set names. str_endswith g ''.spec'' \<longrightarrow> g = f)"
  then have "find (\<lambda>f. str_endswith f ''.spec'') names = Some f"
    by (simp add: find_unique)
  with assms show "find_spec_file w in_dir = Inr f"
    by (simp add: find_spec_file_def)
next
  assume "\<forall>g\<in>set names. \<not> str_endswith g ''.spec''"
  then have "find (\<lambda>f. str_endswith f ''.spec'') names = None"
    by (simp add: find_None_iff)
  with assms show "find_spec_file w in_dir =
      Inl (SystemExit 1 [''ERROR: Unable to locate a spec file in ''
            @ (case in_dir of None \<Rightarrow> getcwd w | Some d \<Rightarrow> d)])"
    by (simp add: find_spec_file_def error_out_def)
qed

theorem find_spec_file_single_witness:
  "find_spec_file spec_dir_world None = Inr ''tito.spec''
   \<and> find_spec_file spec_dir_world (Some ''/tmp/empty'')
       = Inl (SystemExit 1 [''ERROR: Unable to locate a spec file in /tmp/empty''])"
proof -
  have cwd: "listdir spec_dir_world (case None of None \<Rightarrow> getcwd spec_dir_world | Some d \<Rightarrow> d)
               = Some [''README'', ''tito.spec'', ''setup.py'']"
    by (simp add: spec_dir_world_def plain_world_def)
  have one: "''tito.spec'' \<in> set [''README'', ''tito.spec'', ''setup.py'']
             \<and> str_endswith ''tito.spec'' ''.spec''
             \<and> (\<forall>g\<in>set [''README'', ''tito.spec'', ''setup.py''].
                    str_endswith g ''.spec'' \<longrightarrow> g = ''tito.spec'')"
    by (simp add: str_endswith_def)
  have found: "find_spec_file spec_dir_world None = Inr ''tito.spec''"
    using find_spec_file_single [OF cwd, of "''tito.spec''"] one by blast
  have tmp: "listdir spec_dir_world
               (case Some ''/tmp/empty'' of None \<Rightarrow> getcwd spec_dir_world | Some d \<Rightarrow> d)
               = Some [''notes.txt'']"
    by (simp add: spec_dir_world_def plain_world_def)
  have none: "\<forall>g\<in>set [''notes.txt'']. \<not> str_endswith g ''.spec''"
    by (simp add: str_endswith_def)
  have missing: "find_spec_file spec_dir_world (Some ''/tmp/empty'')
       = Inl (SystemExit 1 [''ERROR: Unable to locate a spec file in /tmp/empty''])"
    using find_spec_file_single [OF tmp, of "''tito.spec''"] none by simp
  from found missing show ?thesis by simp
qed

section \<open>\<open>get_project_name\<close>\<close>

lemma isdigit_not [simp]: "\<not> isdigit (CHR 0x0A)" "\<not> isdigit CHR ''-''"
  by (simp_all add: isdigit_def)

lemma greedy_dot_tail:
  "re_run [Greedy_star Dot, Group_close] groups (Some g) inp
     = Some (groups @ [g @ takeWhile (\<lambda>c. c \<noteq> CHR 0x0A) inp])"
  by (induction inp arbitrary: g) simp_all

lemma lazy_name:
  "re_run [Lazy_star Dot, Group_close, One (Lit CHR ''-''), Group_open, One Digit,
           Greedy_star Dot, Group_close] [] (Some g) inp
     = (case hyphen_digit_prefix inp of
          None \<Rightarrow> None
        | Some n \<Rightarrow>
            if CHR 0x0A \<in> set n then None
            else Some [g @ n, takeWhile (\<lambda>c. c \<noteq> CHR 0x0A) (drop (Suc (length n)) inp)])"
proof (induction inp arbitrary: g)
  case Nil
  show ?case by simp
next
  case (Cons x xs)
  have v: "re_run [Group_close, One (Lit CHR ''-''), Group_open, One Digit, Greedy_star Dot, Group_close]
      [] (Some g) (x # xs)
     = (if x = CHR ''-'' \<and> (case xs of [] \<Rightarrow> False | d # _ \<Rightarrow> isdigit d)
        then Some [g, takeWhile (\<lambda>c. c \<noteq> CHR 0x0A) xs] else None)"
    by (cases xs) (auto simp: greedy_dot_tail)
  show ?case
  proof (cases "x = CHR ''-'' \<and> (case xs of [] \<Rightarrow> False | d # _ \<Rightarrow> isdigit d)")
    case True
    have "re_run [Lazy_star Dot, Group_close, One (Lit CHR ''-''), Group_open, One Digit,
           Greedy_star Dot, Group_close] [] (Some g) (x # xs)
        = Some [g, takeWhile (\<lambda>c. c \<noteq> CHR 0x0A) xs]"
      unfolding re_run.simps(7) v if_P [OF True] by simp
    with True show ?thesis by simp
  next
    case False
    have "re_run [Lazy_star Dot, Group_close, One (Lit CHR ''-''), Group_open, One Digit,
           Greedy_star Dot, Group_close] [] (Some g) (x # xs)
        = (if x \<noteq> CHR 0x0A then
             re_run [Lazy_star Dot, Group_close, One (Lit CHR ''-''), Group_open, One Digit,
               Greedy_star Dot, Group_close] [] (Some (g @ [x])) xs
           else None)"
      unfolding re_run.simps(7) v if_not_P [OF False] by simp
    with False show ?thesis
      by (simp add: Cons.IH split: option.splits)
  qed
qed

lemma re_match_project_tag:
  "re_match project_tag_re tag
     = (case hyphen_digit_prefix tag of
          None \<Rightarrow> None
        | Some n \<Rightarrow>
            if CHR 0x0A \<in> set n then None
            else Some [n, takeWhile (\<lambda>c. c \<noteq> CHR 0x0A) (drop (Suc (length n)) tag)])"
proof -
  have "re_match project_tag_re tag
      = re_run [Lazy_star Dot, Group_close, One (Lit CHR ''-''), Group_open, One Digit,
           Greedy_star Dot, Group_close] [] (Some []) tag"
    by (simp add: re_match_def project_tag_re_def)
  then show ?thesis
    by (simp add: lazy_name split: option.splits)
qed

lemma get_project_name_tag_eq:
  "get_project_name w (Some tag)
     = (case hyphen_digit_prefix tag of
          None \<Rightarrow> Inl (SystemExit 1 [''ERROR: Unable to determine project name in tag: '' @ tag])
        | Some n \<Rightarrow>
            if CHR 0x0A \<in> set n
            then Inl (SystemExit 1 [''ERROR: Unable to determine project name in tag: '' @ tag])
            else Inr n)"
  by (simp add: get_project_name_def re_match_project_tag error_out_def list_index_def
           split: option.splits)

lemma hyphen_digit_prefix_append:
  "isdigit d \<Longrightarrow>
   hyphen_digit_prefix (name @ CHR ''-'' # d # rest)
     = (case hyphen_digit_prefix name of None \<Rightarrow> Some name | Some n \<Rightarrow> Some n)"
proof (induction name)
  case Nil
  then show ?case by simp
next
  case (Cons c cs)
  then show ?case
    by (cases cs) (auto split: option.splits)
qed

lemma hyphen_digit_prefix_Some:
  "hyphen_digit_prefix s = Some n \<Longrightarrow>
   \<exists>d rest. s = n @ CHR ''-'' # d # rest \<and> isdigit d"
proof (induction s arbitrary: n)
  case Nil
  then show ?case by simp
next
  case (Cons c cs)
  show ?case
  proof (cases "c = CHR ''-'' \<and> (case cs of [] \<Rightarrow> False | d # _ \<Rightarrow> isdigit d)")
    case True
    with Cons.prems have "n = []" by simp
    with True show ?thesis by (cases cs) auto
  next
    case False
    with Cons.prems obtain m where m: "hyphen_digit_prefix cs = Some m" "n = c # m"
      by (auto split: if_splits)
    from Cons.IH [OF m(1)] m(2) show ?thesis by auto
  qed
qed

lemma hyphen_digit_prefix_None_iff:
  "hyphen_digit_prefix s = None \<longleftrightarrow>
   \<not> (\<exists>name d rest. s = name @ CHR ''-'' # d # rest \<and> isdigit d)"
proof
  assume none: "hyphen_digit_prefix s = None"
  show "\<not> (\<exists>name d rest. s = name @ CHR ''-'' # d # rest \<and> isdigit d)"
  proof
    assume "\<exists>name d rest. s = name @ CHR ''-'' # d # rest \<and> isdigit d"
    then obtain name d rest where "s = name @ CHR ''-'' # d # rest" "isdigit d"
      by blast
    then have "hyphen_digit_prefix s \<noteq> None"
      using hyphen_digit_prefix_append [of d name rest] by (simp split: option.splits)
    with none show False by simp
  qed
next
  assume "\<not> (\<exists>name d rest. s = name @ CHR ''-'' # d # rest \<and> isdigit d)"
  then show "hyphen_digit_prefix s = None"
    using hyphen_digit_prefix_Some [of s] by (cases "hyphen_digit_prefix s") auto
qed

lemma name_version_shape_iff:
  "name_version_shape tag \<longleftrightarrow>
   (\<exists>name d rest. name \<noteq> [] \<and> tag = name @ CHR ''-'' # d # rest \<and> isdigit d)"
proof (cases tag)
  case Nil
  then show ?thesis by (simp add: name_version_shape_def)
next
  case (Cons c cs)
  have "hyphen_digit_prefix cs \<noteq> None \<longleftrightarrow>
        (\<exists>m d rest. cs = m @ CHR ''-'' # d # rest \<and> isdigit d)"
    by (simp add: hyphen_digit_prefix_None_iff)
  also have "\<dots> \<longleftrightarrow>
        (\<exists>name d rest. name \<noteq> [] \<and> c # cs = name @ CHR ''-'' # d # rest \<and> isdigit d)"
  proof
    assume "\<exists>m d rest. cs = m @ CHR ''-'' # d # rest \<and> isdigit d"
    then obtain m d rest where "cs = m @ CHR ''-'' # d # rest" "isdigit d" by blast
    then have "c # m \<noteq> [] \<and> c # cs = (c # m) @ CHR ''-'' # d # rest \<and> isdigit d"
      by simp
    then show "\<exists>name d rest. name \<noteq> [] \<and> c # cs = name @ CHR ''-'' # d # rest \<and> isdigit d"
      by blast
  next
    assume "\<exists>name d rest. name \<noteq> [] \<and> c # cs = name @ CHR ''-'' # d # rest \<and> isdigit d"
    then obtain name d rest where *: "name \<noteq> []" "c # cs = name @ CHR ''-'' # d # rest"
      "isdigit d" by blast
    then obtain m where "name = c # m" by (cases name) auto
    with * have "cs = m @ CHR ''-'' # d # rest" by simp
    with *(3) show "\<exists>m d rest. cs = m @ CHR ''-'' # d # rest \<and> isdigit d" by blast
  qed
  finally show ?thesis using Cons by (simp add: name_version_shape_def)
qed

lemma get_project_name_line_break:
  assumes "hyphen_digit_prefix tag = Some n" and "CHR 0x0A \<in> set n"
  shows "get_project_name w (Some tag)
           = Inl (SystemExit 1 [''ERROR: Unable to determine project name in tag: '' @ tag])"
  using assms by (simp add: get_project_name_tag_eq)

text \<open>
  Claim C4. For a tag made of a name without a line break, a hyphen and a version
  that begins with a digit, \<open>get_project_name\<close> returns the substring before the
  first hyphen that is immediately followed by a digit; when no such hyphen lies
  inside the name, that substring is the name itself. So \<open>name-1.2.3\<close> gives
  \<open>name\<close> and \<open>my-app-1.2.3\<close> gives \<open>my-app\<close>.
\<close>

theorem get_project_name_of_tag:
  assumes "isdigit d" and "CHR 0x0A \<notin> set name"
  shows "\<exists>n. hyphen_digit_prefix (name @ CHR ''-'' # d # version) = Some n
             \<and> get_project_name w (Some (name @ CHR ''-'' # d # version)) = Inr n
             \<and> (hyphen_digit_prefix name = None \<longrightarrow> n = name)"
proof (cases "hyphen_digit_prefix name")
  case None
  with assms show ?thesis
    by (simp add: get_project_name_tag_eq hyphen_digit_prefix_append)
next
  case (Some n)
  then obtain e rest where "name = n @ CHR ''-'' # e # rest"
    using hyphen_digit_prefix_Some by blast
  with assms(2) have "CHR 0x0A \<notin> set n"
    by auto
  with assms(1) Some show ?thesis
    by (simp add: get_project_name_tag_eq hyphen_digit_prefix_append)
qed

theorem get_project_name_of_tag_witness:
  "get_project_name plain_world (Some ''name-1.2.3'') = Inr ''name''
   \<and> get_project_name plain_world (Some ''my-app-1.2.3'') = Inr ''my-app''"
proof -
  have d: "isdigit CHR ''1''"
    by (simp add: isdigit_def)
  have "CHR 0x0A \<notin> set ''name''"
    by simp
  from get_project_name_of_tag [OF d this, of "''.2.3''" plain_world]
  have first: "get_project_name plain_world (Some ''name-1.2.3'') = Inr ''name''"
    by (simp add: isdigit_def)
  have "CHR 0x0A \<notin> set ''my-app''"
    by simp
  from get_project_name_of_tag [OF d this, of "''.2.3''" plain_world]
  have "get_project_name plain_world (Some ''my-app-1.2.3'') = Inr ''my-app''"
    by (simp add: isdigit_def)
  with first show ?thesis
    by simp
qed

text \<open>
  Claim C5, as stated, fails: the tag \<open>-1.0\<close> is not a non-empty name followed by
  a hyphen and a digit, yet \<open>get_project_name\<close> returns the empty name for it
  instead of failing, because the first group of the pattern may match nothing.
\<close>

theorem get_project_name_empty_name_counterexample:
  "\<not> name_version_shape ''-1.0'' \<and> get_project_name plain_world (Some ''-1.0'') = Inr []"
  by (simp add: name_version_shape_def get_project_name_tag_eq isdigit_def)

text \<open>
  Claim C5, amended. For every tag that has no hyphen immediately followed by a
  digit, that is every tag that is not a possibly empty name, a hyphen and a part
  starting with a digit, \<open>get_project_name\<close> prints
  \<open>ERROR: Unable to determine project name in tag: <tag>\<close> and exits with status 1.
\<close>

theorem get_project_name_no_version:
  assumes "\<not> (\<exists>name d rest. tag = name @ CHR ''-'' # d # rest \<and> isdigit d)"
  shows "get_project_name w (Some tag)
           = Inl (SystemExit 1 [''ERROR: Unable to determine project name in tag: '' @ tag])"
proof -
  from assms have "hyphen_digit_prefix tag = None"
    by (simp add: hyphen_digit_prefix_None_iff)
  then show ?thesis
    by (simp add: get_project_name_tag_eq)
qed

theorem get_project_name_no_version_witness:
  "get_project_name plain_world (Some ''release-candidate'')
     = Inl (SystemExit 1 [''ERROR: Unable to determine project name in tag: release-candidate''])"
proof -
  have "hyphen_digit_prefix ''release-candidate'' = None"
    by (simp add: isdigit_def)
  then have "\<not> (\<exists>name d rest. ''release-candidate'' = name @ CHR ''-'' # d # rest \<and> isdigit d)"
    by (rule iffD1 [OF hyphen_digit_prefix_None_iff])
  from get_project_name_no_version [OF this, of plain_world] show ?thesis
    by simp
qed

section \<open>\<open>normalize_class_name\<close>\<close>

text \<open>
  Claim C8. \<open>normalize_class_name\<close> is idempotent; it turns a leading
  \<open>spacewalk.releng.\<close> into \<open>tito.\<close> and returns every string that does not start
  with \<open>spacewalk.releng.\<close> as it is.
\<close>

theorem normalize_class_name_idempotent:
  "normalize_class_name (normalize_class_name name) = normalize_class_name name
   \<and> normalize_class_name (''spacewalk.releng.'' @ rest) = ''tito.'' @ rest
   \<and> (\<not> str_startswith name ''spacewalk.releng.'' \<longrightarrow> normalize_class_name name = name)"
  by (simp add: normalize_class_name_def str_startswith_def Let_def)

theorem normalize_class_name_idempotent_witness:
  "normalize_class_name (normalize_class_name ''spacewalk.releng.tagger.VersionTagger'')
     = ''tito.tagger.VersionTagger''
   \<and> normalize_class_name ''tito.builder.Builder'' = ''tito.builder.Builder''"
  using normalize_class_name_idempotent
          [of "''spacewalk.releng.tagger.VersionTagger''" "''tagger.VersionTagger''"]
    normalize_class_name_idempotent [of "''tito.builder.Builder''" "[]"]
  by (simp add: normalize_class_name_def str_startswith_def)

section \<open>\<open>get_script_path\<close>\<close>

text \<open>
  Claim C10. When \<open>TITO_SRC_BIN_DIR\<close> is not in the environment,
  \<open>get_script_path\<close> returns the script name unchanged; when it is set to
  \<open>bin_dir\<close>, it returns \<open>os.path.join(bin_dir, scriptname)\<close>. The result is the same
  whatever the file system holds: the function never asks whether the path exists.
\<close>

theorem get_script_path_env:
  "(environ w ''TITO_SRC_BIN_DIR'' = None \<longrightarrow> get_script_path w scriptname = scriptname)
   \<and> (\<forall>bin_dir. environ w ''TITO_SRC_BIN_DIR'' = Some bin_dir \<longrightarrow>
          get_script_path w scriptname = path_join bin_dir scriptname)
   \<and> get_script_path (w\<lparr>path_exists := e, listdir := l\<rparr>) scriptname = get_script_path w scriptname"
  by (simp add: get_script_path_def)

theorem get_script_path_env_witness:
  "get_script_path plain_world ''tar-fixup-stamp-comment.pl'' = ''tar-fixup-stamp-comment.pl''
   \<and> get_script_path src_bin_world ''tar-fixup-stamp-comment.pl''
       = ''/src/tito/bin/tar-fixup-stamp-comment.pl''"
  using get_script_path_env [of plain_world "''tar-fixup-stamp-comment.pl''"]
    get_script_path_env [of src_bin_world "''tar-fixup-stamp-comment.pl''"]
  by (simp add: src_bin_world_def plain_world_def path_join_def str_startswith_def str_endswith_def)

section \<open>\<open>get_commit_count\<close>\<close>


lemma get_commit_count_no_hyphen:
  assumes "getstatusoutput w (''git describe '' @ commit_id) = (status, output)"
    and "status \<le> 0" and "output \<noteq> tag" and "CHR ''-'' \<notin> set output"
  shows "get_commit_count w tag commit_id = Inl IndexError"
  using assms
  by (simp add: get_commit_count_def run_command_ok str_split_no_sep list_index_def)

lemma str_split_two_fields: "sep \<in> set s \<Longrightarrow> 2 \<le> length (str_split sep s)"
proof -
  assume "sep \<in> set s"
  then have "count_list s sep \<noteq> 0"
    by (simp add: count_list_0_iff)
  then show ?thesis
    by (simp add: str_split_length)
qed

text \<open>
  Claim C3, as stated, fails: for a commit that \<open>git describe\<close> names by a tag with
  no hyphen in it, other than the tag asked about, the output is neither the tag
  nor does it have a second-to-last field, and \<open>get_commit_count\<close> raises
  \<open>IndexError\<close> instead of returning.
\<close>

theorem get_commit_count_bare_tag_counterexample:
  "getstatusoutput describe_world ''git describe 5e6f7a8'' = (0, ''v2'')
   \<and> get_commit_count describe_world ''v1'' ''5e6f7a8'' = Inl IndexError"
  by (simp add: describe_world_def get_commit_count_def run_command_def list_index_def)

text \<open>
  Claim C3, amended. When \<open>git describe\<close> succeeds for the commit,
  \<open>get_commit_count\<close> returns the integer 0 if the output equals the tag exactly;
  otherwise, if the output holds a hyphen, it returns the second-to-last of the
  fields that the hyphens of the output delimit, as a string; and if the output
  holds no hyphen, it raises \<open>IndexError\<close>.
\<close>

theorem get_commit_count_describe:
  assumes "getstatusoutput w (''git describe '' @ commit_id) = (status, output)"
    and "status \<le> 0"
  shows "(output = tag \<longrightarrow> get_commit_count w tag commit_id = Inr (PyInt 0))
       \<and> (output \<noteq> tag \<and> CHR ''-'' \<in> set output \<longrightarrow>
            get_commit_count w tag commit_id
              = Inr (PyStr (str_split CHR ''-'' output ! (length (str_split CHR ''-'' output) - 2))))
       \<and> (output \<noteq> tag \<and> CHR ''-'' \<notin> set output \<longrightarrow>
            get_commit_count w tag commit_id = Inl IndexError)"
proof (intro conjI impI)
  assume "output = tag"
  with assms show "get_commit_count w tag commit_id = Inr (PyInt 0)"
    by (simp add: get_commit_count_def run_command_ok)
next
  assume a: "output \<noteq> tag \<and> CHR ''-'' \<in> set output"
  let ?fields = "str_split CHR ''-'' output"
  from a have "2 \<le> length ?fields"
    by (simp add: str_split_two_fields)
  then have "list_index ?fields (- 2) = Inr (?fields ! (length ?fields - 2))"
    by (simp add: list_index_def nat_diff_distrib' of_nat_diff)
  moreover from a have "tag \<noteq> output"
    by blast
  ultimately show "get_commit_count w tag commit_id = Inr (PyStr (?fields ! (length ?fields - 2)))"
    using assms by (simp add: get_commit_count_def run_command_ok)
next
  assume "output \<noteq> tag \<and> CHR ''-'' \<notin> set output"
  with assms show "get_commit_count w tag commit_id = Inl IndexError"
    by (simp add: get_commit_count_no_hyphen)
qed

theorem get_commit_count_describe_witness:
  "get_commit_count describe_world ''tito-0.1.2'' ''9f8e7d6'' = Inr (PyInt 0)
   \<and> get_commit_count describe_world ''tito-0.1.2'' ''1a2b3c4'' = Inr (PyStr ''3'')
   \<and> get_commit_count describe_world ''tito-0.1.2'' ''5e6f7a8'' = Inl IndexError"
proof -
  have exact: "getstatusoutput describe_world (''git describe '' @ ''9f8e7d6'') = (0, ''tito-0.1.2'')"
    by (simp add: describe_world_def)
  have later: "getstatusoutput describe_world (''git describe '' @ ''1a2b3c4'')
                 = (0, ''tito-0.1.2-3-g1a2b3c4'')"
    by (simp add: describe_world_def)
  have bare: "getstatusoutput describe_world (''git describe '' @ ''5e6f7a8'') = (0, ''v2'')"
    by (simp add: describe_world_def)
  have fields: "str_split CHR ''-'' ''tito-0.1.2-3-g1a2b3c4'' = [''tito'', ''0.1.2'', ''3'', ''g1a2b3c4'']"
    by simp
  from get_commit_count_describe [OF exact, of "''tito-0.1.2''"]
  have zero: "get_commit_count describe_world ''tito-0.1.2'' ''9f8e7d6'' = Inr (PyInt 0)"
    by simp
  from get_commit_count_describe [OF later, of "''tito-0.1.2''"]
  have count: "get_commit_count describe_world ''tito-0.1.2'' ''1a2b3c4'' = Inr (PyStr ''3'')"
    unfolding fields by simp
  from get_commit_count_describe [OF bare, of "''tito-0.1.2''"]
  have "get_commit_count describe_world ''tito-0.1.2'' ''5e6f7a8'' = Inl IndexError"
    by simp
  with zero count show ?thesis
    by simp
qed

section \<open>\<open>get_relative_project_dir\<close>\<close>

lemma nonspace_run:
  "\<forall>x\<in>set cs. \<not> isspace x \<Longrightarrow>
   takeWhile (\<lambda>x. \<not> isspace x) cs = cs \<and> dropWhile (\<lambda>x. \<not> isspace x) cs = []"
  by (induction cs) auto

lemma ws_tokens_dropWhile: "ws_tokens (dropWhile isspace s) = ws_tokens s"
  by (induction s) simp_all

lemma ws_tokens_trailing:
  "\<forall>c\<in>set t. isspace c \<Longrightarrow> ws_tokens (s @ t) = ws_tokens s"
proof (induction s rule: ws_tokens.induct)
  case 1
  then show ?case
    by (induction t) simp_all
next
  case (2 c cs)
  show ?case
  proof (cases "isspace c")
    case True
    with 2 show ?thesis by simp
  next
    case False
    show ?thesis
    proof (cases "\<forall>x\<in>set cs. \<not> isspace x")
      case True
      from 2(3) have t: "takeWhile (\<lambda>x. \<not> isspace x) t = []" "dropWhile (\<lambda>x. \<not> isspace x) t = t"
        by (cases t; simp)+
      from True have "takeWhile (\<lambda>x. \<not> isspace x) (cs @ t) = cs"
        "dropWhile (\<lambda>x. \<not> isspace x) (cs @ t) = t"
        "takeWhile (\<lambda>x. \<not> isspace x) cs = cs" "dropWhile (\<lambda>x. \<not> isspace x) cs = []"
        by (simp_all add: t takeWhile_append2 dropWhile_append2 nonspace_run)
      moreover from 2(3) have "ws_tokens t = []"
        by (induction t) simp_all
      ultimately show ?thesis
        using \<open>\<not> isspace c\<close> True by (simp add: nonspace_run)
    next
      case False
      then obtain x where x: "x \<in> set cs" "isspace x"
        by blast
      then have "takeWhile (\<lambda>x. \<not> isspace x) (cs @ t) = takeWhile (\<lambda>x. \<not> isspace x) cs"
        "dropWhile (\<lambda>x. \<not> isspace x) (cs @ t) = dropWhile (\<lambda>x. \<not> isspace x) cs @ t"
        by (simp_all add: takeWhile_append1 dropWhile_append1)
      with 2(2) [OF \<open>\<not> isspace c\<close> 2(3)] \<open>\<not> isspace c\<close> show ?thesis
        by simp
    qed
  qed
qed

lemma ws_tokens_strip: "ws_tokens (str_strip s) = ws_tokens s"
proof -
  let ?l = "dropWhile isspace s"
  have "rev (takeWhile isspace (rev ?l) @ dropWhile isspace (rev ?l)) = ?l"
    by (simp only: takeWhile_dropWhile_id rev_rev_ident)
  then have "?l = str_strip s @ rev (takeWhile isspace (rev ?l))"
    by (simp only: rev_append str_strip_def)
  moreover have "\<forall>c\<in>set (rev (takeWhile isspace (rev ?l))). isspace c"
    by (auto dest: set_takeWhileD)
  ultimately have "ws_tokens ?l = ws_tokens (str_strip s)"
    using ws_tokens_trailing by metis
  then show ?thesis
    by (simp add: ws_tokens_dropWhile)
qed

lemma ws_tokens_single:
  "t \<noteq> [] \<Longrightarrow> \<forall>c\<in>set t. \<not> isspace c \<Longrightarrow> ws_tokens t = [t]"
  by (cases t) (simp_all add: nonspace_run)

lemma ws_tokens_join:
  "\<forall>t\<in>set ts. t \<noteq> [] \<and> (\<forall>c\<in>set t. \<not> isspace c) \<Longrightarrow> ws_tokens (str_join '' '' ts) = ts"
proof (induction "'' ''" ts rule: str_join.induct)
  case 1
  show ?case by simp
next
  case (2 t)
  then show ?case by (simp add: ws_tokens_single)
next
  case (3 t u ts)
  then obtain c cs where t: "t = c # cs" "\<not> isspace c" "\<forall>x\<in>set cs. \<not> isspace x"
    by (cases t) auto
  have sp: "isspace CHR '' ''"
    by (simp add: isspace_def)
  from t sp have "takeWhile (\<lambda>x. \<not> isspace x) (cs @ CHR '' '' # str_join '' '' (u # ts)) = cs"
    "dropWhile (\<lambda>x. \<not> isspace x) (cs @ CHR '' '' # str_join '' '' (u # ts))
       = CHR '' '' # str_join '' '' (u # ts)"
    by (simp_all add: takeWhile_append2 dropWhile_append2)
  with t sp 3 show ?case
    by simp
qed


lemma get_relative_project_dir_eq:
  assumes "getstatusoutput w (''git show '' @ commit @ '':rel-eng/packages/'' @ project_name)
             = (status, output)"
    and "status \<le> 0"
  shows "get_relative_project_dir w project_name commit
           = list_index (str_split CHR '' '' (str_strip output)) 1"
  using assms by (simp add: get_relative_project_dir_def run_command_ok Let_def)

text \<open>
  Claim C1, as stated, fails: the code splits the stripped content at every single
  space character and at nothing else. With two spaces between the tokens the
  second field is the empty string between the two spaces, and with a tab between
  them there is one field only and the index is out of range; the second
  whitespace-separated token is the directory in both cases.
\<close>

theorem get_relative_project_dir_whitespace_counterexample:
  "getstatusoutput metadata_world ''git show 1a2b3c4:rel-eng/packages/spaced''
     = (0, ''0.4.0-1  spaced/'')
   \<and> ws_tokens ''0.4.0-1  spaced/'' = [''0.4.0-1'', ''spaced/'']
   \<and> get_relative_project_dir metadata_world ''spaced'' ''1a2b3c4'' = Inr []
   \<and> getstatusoutput metadata_world ''git show 1a2b3c4:rel-eng/packages/tabbed''
     = (0, ''0.4.0-1'' @ CHR 0x09 # ''tabbed/'')
   \<and> ws_tokens (''0.4.0-1'' @ CHR 0x09 # ''tabbed/'') = [''0.4.0-1'', ''tabbed/'']
   \<and> get_relative_project_dir metadata_world ''tabbed'' ''1a2b3c4'' = Inl IndexError"
  by (simp add: metadata_world_def get_relative_project_dir_def run_command_def str_strip_def
        isspace_def list_index_def)

lemma str_split_first_field:
  "\<exists>fields. str_split sep s = takeWhile (\<lambda>c. c \<noteq> sep) s # fields"
  by (induction s) auto

lemma str_split_second_field:
  assumes "sep \<notin> set first"
  shows "\<exists>fields. str_split sep (first @ sep # rest)
                    = first # takeWhile (\<lambda>c. c \<noteq> sep) rest # fields"
proof -
  obtain fields where "str_split sep rest = takeWhile (\<lambda>c. c \<noteq> sep) rest # fields"
    using str_split_first_field by blast
  with assms show ?thesis
    by (simp add: str_split_append str_split_no_sep)
qed

text \<open>
  Claim C1, amended. When \<open>git show <commit>:rel-eng/packages/<projectName>\<close>
  succeeds, \<open>get_relative_project_dir\<close> strips the output of leading and trailing
  whitespace and splits it at single space characters, and at nothing else. If the
  stripped content holds a space, the result is the second field: the text between
  the first space and the next space, or the end when there is no other (empty
  when two spaces are adjacent). If it holds no space, as when a tab separates the
  tokens, the function raises \<open>IndexError\<close>. For two or more whitespace-separated
  tokens with exactly one space between neighbours the result is the second
  whitespace-separated token. The result is read off the output of \<open>git show\<close>
  alone: every environment that gives the same output gives the same result.
\<close>

theorem get_relative_project_dir_space_fields:
  assumes "getstatusoutput w (''git show '' @ commit @ '':rel-eng/packages/'' @ project_name)
             = (status, output)"
    and "status \<le> 0"
  shows "(\<forall>first rest. str_strip output = first @ CHR '' '' # rest \<and> CHR '' '' \<notin> set first \<longrightarrow>
            get_relative_project_dir w project_name commit
              = Inr (takeWhile (\<lambda>c. c \<noteq> CHR '' '') rest))
       \<and> (CHR '' '' \<notin> set (str_strip output) \<longrightarrow>
            get_relative_project_dir w project_name commit = Inl IndexError)
       \<and> (\<forall>tokens. str_strip output = str_join '' '' tokens \<and> 2 \<le> length tokens
              \<and> (\<forall>t\<in>set tokens. t \<noteq> [] \<and> (\<forall>c\<in>set t. \<not> isspace c)) \<longrightarrow>
            ws_tokens output = tokens
            \<and> get_relative_project_dir w project_name commit = Inr (tokens ! 1))
       \<and> (\<forall>w'. getstatusoutput w' (''git show '' @ commit @ '':rel-eng/packages/'' @ project_name)
                  = (status, output) \<longrightarrow>
            get_relative_project_dir w' project_name commit
              = get_relative_project_dir w project_name commit)"
proof -
  have second: "\<forall>first rest. str_strip output = first @ CHR '' '' # rest \<and> CHR '' '' \<notin> set first \<longrightarrow>
            get_relative_project_dir w project_name commit
              = Inr (takeWhile (\<lambda>c. c \<noteq> CHR '' '') rest)"
  proof (intro allI impI)
    fix first rest
    assume a: "str_strip output = first @ CHR '' '' # rest \<and> CHR '' '' \<notin> set first"
    then obtain fields where
      "str_split CHR '' '' (str_strip output) = first # takeWhile (\<lambda>c. c \<noteq> CHR '' '') rest # fields"
      using str_split_second_field [of "CHR '' ''" first rest] by auto
    then show "get_relative_project_dir w project_name commit
                 = Inr (takeWhile (\<lambda>c. c \<noteq> CHR '' '') rest)"
      by (simp add: get_relative_project_dir_eq [OF assms] list_index_def)
  qed
  have none: "CHR '' '' \<notin> set (str_strip output) \<longrightarrow>
            get_relative_project_dir w project_name commit = Inl IndexError"
    by (simp add: get_relative_project_dir_eq [OF assms] str_split_no_sep list_index_def)
  have single: "\<forall>tokens. str_strip output = str_join '' '' tokens \<and> 2 \<le> length tokens
              \<and> (\<forall>t\<in>set tokens. t \<noteq> [] \<and> (\<forall>c\<in>set t. \<not> isspace c)) \<longrightarrow>
            ws_tokens output = tokens
            \<and> get_relative_project_dir w project_name commit = Inr (tokens ! 1)"
  proof (intro allI impI)
    fix tokens
    assume t: "str_strip output = str_join '' '' tokens \<and> 2 \<le> length tokens
                \<and> (\<forall>t\<in>set tokens. t \<noteq> [] \<and> (\<forall>c\<in>set t. \<not> isspace c))"
    have "ws_tokens output = ws_tokens (str_join '' '' tokens)"
      using t ws_tokens_strip [of "output"] by simp
    with t have ws: "ws_tokens output = tokens"
      by (simp add: ws_tokens_join)
    have "isspace CHR '' ''"
      by (simp add: isspace_def)
    with t have "\<forall>t\<in>set tokens. CHR '' '' \<notin> set t"
      by blast
    moreover from t have "tokens \<noteq> []"
      by auto
    ultimately have "str_split CHR '' '' (str_join '' '' tokens) = tokens"
      by (rule str_split_join [rotated])
    with t have "list_index (str_split CHR '' '' (str_strip output)) 1 = Inr (tokens ! 1)"
      by (simp add: list_index_def)
    with ws show "ws_tokens output = tokens
              \<and> get_relative_project_dir w project_name commit = Inr (tokens ! 1)"
      by (simp add: get_relative_project_dir_eq [OF assms])
  qed
  have same: "\<forall>w'. getstatusoutput w' (''git show '' @ commit @ '':rel-eng/packages/'' @ project_name)
                  = (status, output) \<longrightarrow>
            get_relative_project_dir w' project_name commit
              = get_relative_project_dir w project_name commit"
  proof (intro allI impI)
    fix w' :: world
    assume "getstatusoutput w' (''git show '' @ commit @ '':rel-eng/packages/'' @ project_name)
              = (status, output)"
    from get_relative_project_dir_eq [OF this assms(2)] get_relative_project_dir_eq [OF assms]
    show "get_relative_project_dir w' project_name commit
            = get_relative_project_dir w project_name commit"
      by simp
  qed
  show ?thesis
    by (rule conjI [OF second conjI [OF none conjI [OF single same]]])
qed

theorem get_relative_project_dir_space_fields_witness:
  "get_relative_project_dir metadata_world ''tito'' ''1a2b3c4'' = Inr ''./''
   \<and> get_relative_project_dir metadata_world ''spaced'' ''1a2b3c4'' = Inr []
   \<and> get_relative_project_dir metadata_world ''tabbed'' ''1a2b3c4'' = Inl IndexError"
proof -
  have tito: "getstatusoutput metadata_world (''git show '' @ ''1a2b3c4'' @ '':rel-eng/packages/'' @ ''tito'')
               = (0, ''0.1.2-1 ./'')"
    by (simp add: metadata_world_def)
  have spaced: "getstatusoutput metadata_world (''git show '' @ ''1a2b3c4'' @ '':rel-eng/packages/'' @ ''spaced'')
               = (0, ''0.4.0-1  spaced/'')"
    by (simp add: metadata_world_def)
  have tabbed: "getstatusoutput metadata_world (''git show '' @ ''1a2b3c4'' @ '':rel-eng/packages/'' @ ''tabbed'')
               = (0, ''0.4.0-1'' @ CHR 0x09 # ''tabbed/'')"
    by (simp add: metadata_world_def)
  have s1: "str_strip ''0.1.2-1 ./'' = ''0.1.2-1'' @ CHR '' '' # ''./'' \<and> CHR '' '' \<notin> set ''0.1.2-1''"
    by (simp add: str_strip_def isspace_def)
  have s2: "str_strip ''0.4.0-1  spaced/'' = ''0.4.0-1'' @ CHR '' '' # '' spaced/''
              \<and> CHR '' '' \<notin> set ''0.4.0-1''"
    by (simp add: str_strip_def isspace_def)
  have s3: "CHR '' '' \<notin> set (str_strip (''0.4.0-1'' @ CHR 0x09 # ''tabbed/''))"
    by (simp add: str_strip_def isspace_def)
  from get_relative_project_dir_space_fields [OF tito] s1
  have r1: "get_relative_project_dir metadata_world ''tito'' ''1a2b3c4''
              = Inr (takeWhile (\<lambda>c. c \<noteq> CHR '' '') ''./'')"
    by blast
  from get_relative_project_dir_space_fields [OF spaced] s2
  have r2: "get_relative_project_dir metadata_world ''spaced'' ''1a2b3c4''
              = Inr (takeWhile (\<lambda>c. c \<noteq> CHR '' '') '' spaced/'')"
    by blast
  from get_relative_project_dir_space_fields [OF tabbed] s3
  have r3: "get_relative_project_dir metadata_world ''tabbed'' ''1a2b3c4'' = Inl IndexError"
    by blast
  from r1 r2 r3 show ?thesis
    by simp
qed

section \<open>\<open>find_git_root\<close>\<close>

lemma normpath_comps_plain:
  "list_all (\<lambda>part. part \<noteq> [] \<and> part \<noteq> ''.'' \<and> part \<noteq> ''..'') parts \<Longrightarrow>
   normpath_comps k acc (parts @ tail) = normpath_comps k (acc @ parts) tail"
  by (induction parts arbitrary: acc) simp_all

lemma str_split_trailing_sep: "[] \<in> set (str_split sep (a @ [sep]))"
  by (simp add: str_split_append)

lemma str_endswith_single: "str_endswith s [c] \<longleftrightarrow> s \<noteq> [] \<and> last s = c"
  by (cases s rule: rev_cases) (auto simp: str_endswith_def)

lemma str_startswith_Cons:
  "str_startswith s (c # p) \<longleftrightarrow> (\<exists>t. s = c # t \<and> str_startswith t p)"
  by (cases s) (auto simp: str_startswith_def)

lemma str_startswith_Nil [simp]: "str_startswith s []"
  by (simp add: str_startswith_def)

lemma canonical_path_normpath_dot:
  assumes "canonical_path p"
  shows "normpath (path_join p ''./'') = p"
proof -
  from assms obtain rest where p: "p = CHR ''/'' # rest"
    by (auto simp: canonical_path_def split: list.splits)
  show ?thesis
  proof (cases "rest = []")
    case True
    with p show ?thesis
      by (simp add: path_join_def normpath_def str_startswith_def str_endswith_def)
  next
    case False
    let ?parts = "str_split CHR ''/'' rest"
    from assms p False have parts: "list_all (\<lambda>part. part \<noteq> [] \<and> part \<noteq> ''.'' \<and> part \<noteq> ''..'') ?parts"
      by (simp add: canonical_path_def)
    then have no_empty: "[] \<notin> set ?parts"
      by (auto simp: list_all_iff)
    have last: "last rest \<noteq> CHR ''/''"
    proof
      assume "last rest = CHR ''/''"
      with False have "rest = butlast rest @ [CHR ''/'']"
        by (metis append_butlast_last_id)
      then have "[] \<in> set ?parts"
        using str_split_trailing_sep [of "CHR ''/''" "butlast rest"] by simp
      with no_empty show False by simp
    qed
    have first: "\<not> str_startswith rest ''/''"
    proof
      assume "str_startswith rest ''/''"
      then obtain t where "rest = CHR ''/'' # t"
        by (auto simp: str_startswith_Cons)
      then have "[] \<in> set ?parts"
        by simp
      with no_empty show False by simp
    qed
    from last False p have joined: "path_join p ''./'' = CHR ''/'' # rest @ ''/./''"
      by (simp add: path_join_def str_endswith_single str_startswith_Cons)
    have split: "str_split CHR ''/'' (CHR ''/'' # rest @ ''/./'') = [] # ?parts @ [''.'', []]"
      using str_split_append [of "CHR ''/''" rest "''./''"] by simp
    have comps: "normpath_comps 1 [] ([] # ?parts @ [''.'', []]) = ?parts"
      using normpath_comps_plain [OF parts, of 1 "[]" "[''.'', []]"] by simp
    from False first obtain r rs where rest: "rest = r # rs" "r \<noteq> CHR ''/''"
      by (cases rest) (auto simp: str_startswith_def)
    have slashes: "str_startswith (CHR ''/'' # rest @ ''/./'') ''/''"
      "\<not> str_startswith (CHR ''/'' # rest @ ''/./'') ''//''"
      by (simp_all add: rest str_startswith_def)
    have "normpath (CHR ''/'' # rest @ ''/./'') = CHR ''/'' # str_join ''/'' ?parts"
      unfolding normpath_def Let_def split using slashes comps by simp
    with joined p show ?thesis
      by (simp add: str_join_split)
  qed
qed

text \<open>
  Claim C9. When \<open>git rev-parse --show-cdup\<close> succeeds and prints nothing,
  \<open>find_git_root\<close> returns \<open>os.path.abspath("./")\<close>, the empty output being read as
  \<open>./\<close>, and that is the current working directory.
\<close>

theorem find_git_root_top_level:
  assumes "getstatusoutput w ''git rev-parse --show-cdup'' = (status, [])"
    and "status \<le> 0"
    and "canonical_path (getcwd w)"
  shows "find_git_root w = Inr (abspath w ''./'') \<and> abspath w ''./'' = getcwd w"
  using assms
  by (simp add: find_git_root_def abspath_def isabs_def str_startswith_def canonical_path_normpath_dot)

theorem find_git_root_top_level_witness:
  "find_git_root top_level_world = Inr ''/home/dev/tito''"
proof -
  have out: "getstatusoutput top_level_world ''git rev-parse --show-cdup'' = (0, [])"
    by (simp add: top_level_world_def)
  have cwd: "canonical_path (getcwd top_level_world)"
    by (simp add: top_level_world_def canonical_path_def)
  from find_git_root_top_level [OF out _ cwd] show ?thesis
    by (simp add: top_level_world_def)
qed

section \<open>\<open>get_latest_tagged_version\<close>\<close>

lemma get_latest_tagged_version_outside_checkout:
  assumes "getstatusoutput w ''git rev-parse --show-cdup'' = (status, cdup)" and "status > 0"
  shows "get_latest_tagged_version w package_name
           = Inl (SystemExit 1
               [''ERROR: '' @ getcwd w @ '' does not appear to be within a git checkout.''])"
  using assms by (simp add: get_latest_tagged_version_def find_git_root_def error_out_def)

text \<open>
  Claim C7. Inside a git checkout with top level \<open>git_root\<close>,
  \<open>get_latest_tagged_version\<close> returns \<open>None\<close>, and raises nothing, when
  \<open>rel-eng/packages/<packageName>\<close> under the top level does not exist; when the
  file exists and its first token, as \<open>awk '{ print $1 ; exit }'\<close> prints it, is
  empty, it prints the error line naming the file and exits with status 1.
\<close>

theorem get_latest_tagged_version_missing_or_empty:
  assumes "find_git_root w = Inr git_root"
  shows "(\<not> path_exists w (path_join git_root ''rel-eng'' @ ''/packages/'' @ package_name) \<longrightarrow>
            get_latest_tagged_version w package_name = Inr None)
       \<and> (path_exists w (path_join git_root ''rel-eng'' @ ''/packages/'' @ package_name)
            \<and> getstatusoutput w
                 (awk_first @ '' '' @ path_join git_root ''rel-eng'' @ ''/packages/'' @ package_name)
                = (status, output)
            \<and> status \<le> 0 \<and> str_strip output = [] \<longrightarrow>
            get_latest_tagged_version w package_name
              = Inl (SystemExit 1
                  [''ERROR: Error looking up latest tagged version in: ''
                     @ path_join git_root ''rel-eng'' @ ''/packages/'' @ package_name]))"
  using assms
  by (auto simp: get_latest_tagged_version_def Let_def run_command_ok error_out_def)

theorem get_latest_tagged_version_missing_or_empty_witness:
  "get_latest_tagged_version packages_world ''spacewalk'' = Inr None
   \<and> get_latest_tagged_version packages_world ''tito''
       = Inl (SystemExit 1
           [''ERROR: Error looking up latest tagged version in: /home/dev/tito/rel-eng/packages/tito''])"
proof -
  have root: "find_git_root packages_world = Inr ''/home/dev/tito''"
    by (simp add: find_git_root_def packages_world_def abspath_def isabs_def normpath_def
          path_join_def str_startswith_def str_endswith_def)
  have path: "path_join ''/home/dev/tito'' ''rel-eng'' = ''/home/dev/tito/rel-eng''"
    by (simp add: path_join_def str_startswith_def str_endswith_def)
  have missing: "\<not> path_exists packages_world (''/home/dev/tito/rel-eng'' @ ''/packages/'' @ ''spacewalk'')"
    by (simp add: packages_world_def)
  have present: "path_exists packages_world (''/home/dev/tito/rel-eng'' @ ''/packages/'' @ ''tito'')"
    by (simp add: packages_world_def)
  have awk: "getstatusoutput packages_world
               (awk_first @ '' '' @ ''/home/dev/tito/rel-eng'' @ ''/packages/'' @ ''tito'') = (0, [])"
    by (simp add: packages_world_def)
  have empty: "str_strip [] = []"
    by (simp add: str_strip_def)
  from get_latest_tagged_version_missing_or_empty [OF root, of "''spacewalk''"] missing
  have none: "get_latest_tagged_version packages_world ''spacewalk'' = Inr None"
    unfolding path by blast
  from get_latest_tagged_version_missing_or_empty [OF root, of "''tito''" 0 "[]"] present awk empty
  have "get_latest_tagged_version packages_world ''tito''
       = Inl (SystemExit 1
           [''ERROR: Error looking up latest tagged version in: /home/dev/tito/rel-eng/packages/tito''])"
    unfolding path by simp
  with none show ?thesis
    by simp
qed

section \<open>\<open>check_tag_exists\<close>\<close>

lemma occurs_in_self: "occurs_in t t"
  by (cases t) (simp_all add: str_startswith_def)

lemma check_tag_exists_offline_eq:
  "check_tag_exists w tag True
     = (if fst (getstatusoutput w (''git tag | grep '' @ tag)) > 0
        then Inl (SystemExit 1 [''ERROR: Tag does not exist locally: ['' @ tag @ '']''])
        else (case run_command w (''git ls-remote ./. --tag '' @ tag @ '' | '' @ awk_first) of
                Inl e \<Rightarrow> Inl e
              | Inr tag_sha1 \<Rightarrow> Inr ()))"
  by (simp add: check_tag_exists_def error_out_def split: prod.splits sum.splits)

lemma tags_world_grep:
  "plain_pattern tag \<Longrightarrow>
   getstatusoutput (tags_world tags) (''git tag | grep '' @ tag) = the (git_tag_grep tags tag)"
  by (simp add: tags_world_def str_startswith_def git_tag_grep_def Let_def)

lemma tags_world_ls_remote:
  "run_command (tags_world tags) (''git ls-remote ./. --tag '' @ tag @ '' | '' @ awk_first) = Inr []"
  by (simp add: tags_world_def run_command_def str_startswith_def)

lemma check_tag_exists_tags_world:
  assumes "plain_pattern tag"
  shows "check_tag_exists (tags_world tags) tag True
     = (if \<exists>t\<in>set tags. occurs_in tag t then Inr ()
        else Inl (SystemExit 1 [''ERROR: Tag does not exist locally: ['' @ tag @ '']'']))"
proof -
  from assms have "fst (the (git_tag_grep tags tag)) > 0 \<longleftrightarrow> \<not> (\<exists>t\<in>set tags. occurs_in tag t)"
    by (auto simp: git_tag_grep_def Let_def filter_empty_conv)
  then show ?thesis
    unfolding check_tag_exists_offline_eq tags_world_grep [OF assms] tags_world_ls_remote by simp
qed

text \<open>
  Claim C2 against the code. In a repository whose local tags are \<open>v10\<close> and
  \<open>v2\<close>, \<open>v1\<close> is not a local tag, but \<open>grep v1\<close> selects the line \<open>v10\<close> and
  ends with status 0; \<open>check_tag_exists("v1", offline=True)\<close> then returns
  normally where the claim, the docstring and the error message ask for a failure.
\<close>

theorem check_tag_exists_offline_substring:
  "''v1'' \<notin> set [''v10'', ''v2'']
   \<and> getstatusoutput (tags_world [''v10'', ''v2'']) ''git tag | grep v1'' = (0, ''v10'')
   \<and> check_tag_exists (tags_world [''v10'', ''v2'']) ''v1'' True = Inr ()"
proof -
  have plain: "plain_pattern ''v1''"
    by (simp add: plain_pattern_def isalnum_def)
  have listing: "getstatusoutput (tags_world [''v10'', ''v2'']) ''git tag | grep v1'' = (0, ''v10'')"
    using tags_world_grep [OF plain, of "[''v10'', ''v2'']"]
    by (simp add: git_tag_grep_def plain str_startswith_def)
  have "check_tag_exists (tags_world [''v10'', ''v2'']) ''v1'' True = Inr ()"
    by (simp add: check_tag_exists_tags_world [OF plain] str_startswith_def)
  with listing show ?thesis
    by simp
qed

end
